theory Spec2Isabelle
  imports Complex_Main
begin

section \<open>The log-option payoff script\<close>

text \<open>
  The script \<^verbatim>\<open>log-option_payoff.py\<close> builds three sample grids with
  \<^verbatim>\<open>np.linspace\<close>, evaluates one closed-form rule on each grid and hands the
  three series to the plotting library together with fixed axis limits and ticks.

  NumPy's float64 arrays are modelled as lists of real numbers: every result below is
  a statement of exact arithmetic, and rounding of IEEE doubles is not part of the model.
  The integer array of \<^verbatim>\<open>np.arange(-20, 21, 2)\<close> is a list of (unbounded) integers;
  its values stay far from the 64-bit range.
\<close>

subsection \<open>Library primitives\<close>

text \<open>
  The floating-point conditions NumPy reports from \<^verbatim>\<open>np.log\<close>: the logarithm of
  zero is a divide-by-zero (the array holds \<^verbatim>\<open>-inf\<close>), the logarithm of a negative
  number is an invalid value (the array holds \<^verbatim>\<open>nan\<close>). Neither is a real number,
  so the model returns the condition instead.
\<close>

datatype fp_error = DivideByZero | InvalidValue

datatype py_error = ZeroDivisionError

text \<open>
  Modelled from the spec: \<^verbatim>\<open>np.linspace\<close> (the spec's generate_domain) is NumPy
  library code and not part of the repository's sources. The model follows the spec's
  contract (a sample count, evenly spaced values from the left bound, the right bound
  included or excluded by the flag) in the way NumPy computes it: the divisor is
  \<^verbatim>\<open>num - 1\<close> with the endpoint and \<^verbatim>\<open>num\<close> without, the samples are
  \<^verbatim>\<open>arange(0, num) * step + start\<close>, a zero step is handled by dividing first, a
  non-positive divisor leaves the step undefined and multiplies by \<^verbatim>\<open>delta\<close>, and with
  the endpoint and more than one sample the last entry is overwritten by \<^verbatim>\<open>stop\<close>.
  The sample count is a natural number: the \<^verbatim>\<open>ValueError\<close> of a negative count is
  excluded by the type.
\<close>

definition linspace :: "real \<Rightarrow> real \<Rightarrow> nat \<Rightarrow> bool \<Rightarrow> real list" where
  "linspace start stop num endpoint =
     (let divisor = (if endpoint then int num - 1 else int num);
          delta = stop - start;
          y = map real [0..<num];
          step = delta / real_of_int divisor;
          y = (if 0 < divisor
               then (if step = 0
                     then map (\<lambda>v. v / real_of_int divisor * delta) y
                     else map (\<lambda>v. v * step) y)
               else map (\<lambda>v. v * delta) y);
          y = map (\<lambda>v. v + start) y
      in if endpoint \<and> 1 < num then y[num - 1 := stop] else y)"

text \<open>
  \<^verbatim>\<open>np.arange(start, stop, step)\<close>: \<^verbatim>\<open>ceil((stop - start) / step)\<close> values
  \<^verbatim>\<open>start + i * step\<close> of the half-open interval from \<^verbatim>\<open>start\<close> to \<^verbatim>\<open>stop\<close>;
  a zero step raises. The length is computed in floating point also for integer arguments.
\<close>

definition arange :: "real \<Rightarrow> real \<Rightarrow> real \<Rightarrow> py_error + real list" where
  "arange start stop step =
     (if step = 0 then Inl ZeroDivisionError
      else Inr (map (\<lambda>i. start + real i * step) [0..<nat \<lceil>(stop - start) / step\<rceil>]))"

definition arange_int :: "int \<Rightarrow> int \<Rightarrow> int \<Rightarrow> py_error + int list" where
  "arange_int start stop step =
     (if step = 0 then Inl ZeroDivisionError
      else Inr (map (\<lambda>i. start + int i * step)
                  [0..<nat \<lceil>real_of_int (stop - start) / real_of_int step\<rceil>]))"

definition zeros_like :: "real list \<Rightarrow> real list" where
  "zeros_like xs = map (\<lambda>_. 0) xs"

definition np_log :: "real \<Rightarrow> fp_error + real" where
  "np_log x =
     (if x = 0 then Inl DivideByZero
      else if x < 0 then Inl InvalidValue
      else Inr (ln x))"

subsection \<open>The script\<close>

definition e :: real where
  "e = exp 1"

definition x1 :: "real list" where
  "x1 = linspace (- 20) 0 400 True"

definition x2 :: "real list" where
  "x2 = linspace 0 e 200 False"

definition x3 :: "real list" where
  "x3 = linspace e 20 300 True"

definition y1 :: "real list" where
  "y1 = zeros_like x1"

definition y2 :: "real list" where
  "y2 = map (\<lambda>x. (1 / e) * x) x2"

definition y3 :: "(fp_error + real) list" where
  "y3 = map np_log x3"

text \<open>
  The three \<^verbatim>\<open>plt.plot\<close> calls draw the series left to right; \<open>plotted_y\<close> is the
  sequence of ordinates in drawing order.
\<close>

definition plotted_y :: "(fp_error + real) list" where
  "plotted_y = map Inr y1 @ map Inr y2 @ y3"

definition xlim :: "real \<times> real" where
  "xlim = (- 20, 20)"

definition ylim :: "real \<times> real" where
  "ylim = (- 5, 5)"

definition xticks :: "py_error + int list" where
  "xticks = arange_int (- 20) 21 2"

definition yticks :: "py_error + real list" where
  "yticks = arange (- 5) 5 0.5"

section \<open>Properties of the primitives\<close>

lemma length_linspace: "length (linspace a b n ep) = n"
  by (simp add: linspace_def Let_def)

text \<open>Every sample has the same closed form, the overwritten last one included.\<close>

lemma nth_linspace:
  assumes "i < n"
  shows "linspace a b n ep ! i =
           a + real i * (b - a) / (if ep then real n - 1 else real n)"
proof (cases "ep \<and> 1 < n")
  case True
  then have n1: "real n - 1 \<noteq> 0" and dpos: "0 < int n - 1"
    by auto
  show ?thesis
  proof (cases "i = n - 1")
    case True
    have "real i = real n - 1"
      using True \<open>ep \<and> 1 < n\<close> by (simp add: of_nat_diff)
    then have "a + real i * (b - a) / (real n - 1) = b"
      using n1 by simp
    then show ?thesis
      using True \<open>ep \<and> 1 < n\<close> by (simp add: linspace_def Let_def)
  next
    case False
    then show ?thesis
      using assms \<open>ep \<and> 1 < n\<close> n1 by (simp add: linspace_def Let_def)
  qed
next
  case False
  show ?thesis
  proof (cases ep)
    case True
    then have "n = 1" "i = 0"
      using False assms by auto
    then show ?thesis
      using True by (simp add: linspace_def Let_def)
  next
    case False
    then show ?thesis
      using assms by (simp add: linspace_def Let_def)
  qed
qed

section \<open>The sample grids\<close>

lemma exp3_gt_20: "(20::real) < exp 3"
proof -
  have s: "summable (\<lambda>n. inverse (fact (n + 9)) *\<^sub>R ((3::real) ^ (n + 9)))"
    using summable_exp_generic [of "3::real"] by (subst summable_iff_shift)
  have "0 \<le> (\<Sum>n. inverse (fact (n + 9)) *\<^sub>R ((3::real) ^ (n + 9)))"
    by (rule suminf_nonneg [OF s]) simp
  moreover have "exp (3::real) = (\<Sum>n<9. inverse (fact n) *\<^sub>R (3 ^ n)) + (\<Sum>n. inverse (fact (n + 9)) *\<^sub>R (3 ^ (n + 9)))"
    by (rule exp_first_terms)
  moreover have "(20::real) < (\<Sum>n<9. inverse (fact n) *\<^sub>R (3 ^ n))"
    by (simp add: lessThan_nat_numeral fact_numeral)
  ultimately show ?thesis by linarith
qed

lemma ln20_lt_3: "ln (20::real) < 3"
  using ln_strict_mono [OF exp3_gt_20] by simp

lemma e_pos: "0 < e"
  by (simp add: e_def)

lemma e_le_3: "e \<le> 3"
  by (simp add: e_def exp_le)

lemma ln_e: "ln e = 1"
  by (simp add: e_def)

lemma length_x1: "length x1 = 400"
  by (simp add: x1_def length_linspace)

lemma length_x2: "length x2 = 200"
  by (simp add: x2_def length_linspace)

lemma length_x3: "length x3 = 300"
  by (simp add: x3_def length_linspace)

lemma nth_x1: "i < 400 \<Longrightarrow> x1 ! i = - 20 + real i * 20 / 399"
  by (simp add: x1_def nth_linspace)

lemma nth_x2: "i < 200 \<Longrightarrow> x2 ! i = real i * e / 200"
  by (simp add: x2_def nth_linspace)

lemma nth_x3: "i < 300 \<Longrightarrow> x3 ! i = e + real i * (20 - e) / 299"
  by (simp add: x3_def nth_linspace)

lemma x3_ge_e: "i < 300 \<Longrightarrow> e \<le> x3 ! i"
  using e_le_3 by (simp add: nth_x3)

lemma x3_le_20: "i < 300 \<Longrightarrow> x3 ! i \<le> 20"
proof -
  assume "i < 300"
  then have "real i \<le> 299" by simp
  then have "real i * (20 - e) \<le> 299 * (20 - e)"
    using e_le_3 by (intro mult_right_mono) auto
  then show ?thesis
    using \<open>i < 300\<close> by (simp add: nth_x3)
qed

lemma x3_strict: "i < j \<Longrightarrow> j < 300 \<Longrightarrow> x3 ! i < x3 ! j"
  using e_le_3 by (simp add: nth_x3 divide_strict_right_mono)

lemma x2_strict: "i < j \<Longrightarrow> j < 200 \<Longrightarrow> x2 ! i < x2 ! j"
  using e_pos by (simp add: nth_x2)

lemma x2_lt_e: "i < 200 \<Longrightarrow> x2 ! i < e"
  using e_pos by (simp add: nth_x2)

lemma x2_nonneg: "i < 200 \<Longrightarrow> 0 \<le> x2 ! i"
  using e_pos by (simp add: nth_x2)

lemma x1_nonpos: "i < 400 \<Longrightarrow> x1 ! i \<le> 0"
  by (simp add: nth_x1)

section \<open>The evaluated segments\<close>

lemma y2_eq: "y2 = map (\<lambda>x. x / e) x2"
  by (simp add: y2_def)

lemma nth_y2: "i < 200 \<Longrightarrow> y2 ! i = real i / 200"
  using e_pos by (simp add: y2_def length_x2 nth_x2)

lemma x3_pos: "x \<in> set x3 \<Longrightarrow> 0 < x"
proof -
  assume "x \<in> set x3"
  then obtain i where "i < length x3" "x3 ! i = x"
    by (auto simp: in_set_conv_nth)
  then show ?thesis
    using x3_ge_e [of i] e_pos by (simp add: length_x3)
qed

lemma y3_eq: "y3 = map (\<lambda>x. Inr (ln x)) x3"
proof -
  have "np_log x = Inr (ln x)" if "x \<in> set x3" for x
    using x3_pos [OF that] by (simp add: np_log_def)
  then show ?thesis
    by (simp add: y3_def)
qed

lemma length_y2: "length y2 = 200"
  by (simp add: y2_def length_x2)

lemma sorted_y2: "sorted_wrt (<) y2"
proof -
  have "y2 ! i < y2 ! j" if "i < j" "j < 200" for i j
    using that by (simp add: nth_y2)
  then show ?thesis
    by (simp add: sorted_wrt_iff_nth_less length_y2)
qed

lemma len_y: "length y1 = length x1" "length y2 = length x2" "length y3 = length x3"
  by (simp_all add: y1_def zeros_like_def y2_def y3_def)

lemma all_y1_zero: "list_all (\<lambda>y. y = 0) y1"
  by (simp add: y1_def zeros_like_def list_all_iff)

lemma y2_nonneg: "list_all (\<lambda>y. 0 \<le> y) y2"
proof -
  have "0 \<le> y2 ! i" if "i < 200" for i
    using that by (simp add: nth_y2)
  then show ?thesis
    by (simp add: list_all_length length_y2)
qed

lemma sorted_ln_x3: "sorted_wrt (<) (map ln x3)"
proof -
  have "ln (x3 ! i) < ln (x3 ! j)" if "i < j" "j < 300" for i j
  proof -
    have "0 < x3 ! i"
      using x3_ge_e [of i] e_pos that by simp
    then show ?thesis
      using x3_strict [OF that] by (simp add: ln_strict_mono)
  qed
  then show ?thesis
    by (simp add: sorted_wrt_iff_nth_less length_x3)
qed

section \<open>Boundaries and ranges of the grids\<close>

lemma x1_last: "x1 ! 399 = 0"
  by (simp add: nth_x1)

lemma x2_first: "x2 ! 0 = 0"
  by (simp add: nth_x2)

lemma x3_first: "x3 ! 0 = e"
  by (simp add: nth_x3)

lemma x3_last: "x3 ! 299 = 20"
  by (simp add: nth_x3 diff_divide_distrib)

lemma x1_ne: "x1 \<noteq> []" and x2_ne: "x2 \<noteq> []" and x3_ne: "x3 \<noteq> []"
  using length_x1 length_x2 length_x3 by auto

lemma y2_ne: "y2 \<noteq> []"
  using length_y2 by auto

lemma set_x2_bounds: "x \<in> set x2 \<Longrightarrow> 0 \<le> x \<and> x < e"
proof -
  assume "x \<in> set x2"
  then obtain i where "i < length x2" "x2 ! i = x"
    by (auto simp: in_set_conv_nth)
  then show ?thesis
    using x2_nonneg [of i] x2_lt_e [of i] by (simp add: length_x2)
qed

lemma set_x3_bounds: "x \<in> set x3 \<Longrightarrow> e \<le> x \<and> x \<le> 20"
proof -
  assume "x \<in> set x3"
  then obtain i where "i < length x3" "x3 ! i = x"
    by (auto simp: in_set_conv_nth)
  then show ?thesis
    using x3_ge_e [of i] x3_le_20 [of i] by (simp add: length_x3)
qed

lemma set_x1_bounds: "x \<in> set x1 \<Longrightarrow> - 20 \<le> x \<and> x \<le> 0"
proof -
  assume "x \<in> set x1"
  then obtain i where "i < length x1" "x1 ! i = x"
    by (auto simp: in_set_conv_nth)
  then show ?thesis
    using x1_nonpos [of i] by (simp add: length_x1 nth_x1)
qed

lemma grids_2_3_disjoint: "set x2 \<inter> set x3 = {}"
  using set_x2_bounds set_x3_bounds by fastforce

lemma grids_1_3_disjoint: "set x1 \<inter> set x3 = {}"
  using set_x1_bounds set_x3_bounds e_pos by fastforce

lemma e_not_in_x2: "e \<notin> set x2"
  using set_x2_bounds by fastforce

lemma sorted_x3: "sorted_wrt (<) x3"
proof -
  have "x3 ! i < x3 ! j" if "i < j" "j < 300" for i j
    using that by (rule x3_strict)
  then show ?thesis
    by (simp add: sorted_wrt_iff_nth_less length_x3)
qed

lemma distinct_x3: "distinct x3"
  using sorted_x3 by (simp add: strict_sorted_iff)

lemma zero_in_x1: "0 \<in> set x1"
  using nth_mem [of 399 x1] by (simp add: length_x1 x1_last)

lemma zero_in_x2: "0 \<in> set x2"
  using nth_mem [of 0 x2] by (simp add: length_x2 x2_first)

lemma grids_1_2_meet: "set x1 \<inter> set x2 = {0}"
proof
  show "set x1 \<inter> set x2 \<subseteq> {0}"
    using set_x1_bounds set_x2_bounds by fastforce
  show "{0} \<subseteq> set x1 \<inter> set x2"
    using zero_in_x1 zero_in_x2 by simp
qed

lemma e_not_in_x1: "e \<notin> set x1"
  using set_x1_bounds [of e] e_pos by auto

lemma set_y1: "y \<in> set y1 \<Longrightarrow> y = 0"
  by (auto simp: y1_def zeros_like_def)

lemma set_y2: "y \<in> set y2 \<Longrightarrow> 0 \<le> y \<and> y < 1"
proof -
  assume "y \<in> set y2"
  then obtain i where "i < length y2" "y2 ! i = y"
    by (auto simp: in_set_conv_nth)
  then show ?thesis
    by (auto simp: length_y2 nth_y2)
qed

lemma set_ln_x3: "y \<in> set (map ln x3) \<Longrightarrow> 1 \<le> y \<and> y \<le> ln 20"
proof -
  assume "y \<in> set (map ln x3)"
  then obtain x where x: "x \<in> set x3" "y = ln x"
    by auto
  have "ln e \<le> ln x"
    using set_x3_bounds [OF x(1)] e_pos by simp
  moreover have "ln x \<le> ln 20"
    using set_x3_bounds [OF x(1)] x3_pos [OF x(1)] by simp
  ultimately show ?thesis
    using x(2) by (simp add: ln_e)
qed

lemma sorted_y1: "sorted y1"
  by (simp add: sorted_iff_nth_mono y1_def zeros_like_def)

lemma y2_short_of_one: "list_all2 (\<lambda>x y. \<bar>y - 1\<bar> = (e - x) / e) x2 y2"
proof -
  have "\<bar>y2 ! i - 1\<bar> = (e - x2 ! i) / e" if "i < 200" for i
  proof -
    have "real i / 200 \<le> 1"
      using that by simp
    moreover have "(e - real i * e / 200) / e = 1 - real i / 200"
      using e_pos by (simp add: diff_divide_distrib)
    ultimately show ?thesis
      using that by (simp add: nth_x2 nth_y2)
  qed
  then show ?thesis
    by (simp add: list_all2_conv_all_nth length_x2 length_y2)
qed

section \<open>The domain generator\<close>

text \<open>
  The samples of \<open>linspace\<close> are given by one formula in its four arguments.
\<close>

lemma linspace_closed_form:
  "linspace a b n ep =
     map (\<lambda>i. a + real i * (b - a) / (if ep then real n - 1 else real n)) [0..<n]"
  by (rule nth_equalityI) (simp_all add: length_linspace nth_linspace)

section \<open>Claims\<close>

text \<open>
  C1. Every payoff of segment 1 is 0 (for every sample of the grid, the boundary sample
  \<open>x = 0\<close> included). Every payoff of segment 2 equals \<open>x / e\<close>, and that series is
  non-negative and strictly increasing. Every payoff of segment 3 equals \<open>ln x\<close> (no
  floating-point condition arises), and that series is strictly increasing. Each evaluated
  series has the length of its grid.
\<close>

theorem segment_payoffs:
  "length y1 = length x1 \<and> length y2 = length x2 \<and> length y3 = length x3 \<and>
   list_all (\<lambda>y. y = 0) y1 \<and>
   y2 = map (\<lambda>x. x / e) x2 \<and> list_all (\<lambda>y. 0 \<le> y) y2 \<and> sorted_wrt (<) y2 \<and>
   y3 = map (\<lambda>x. Inr (ln x)) x3 \<and> sorted_wrt (<) (map ln x3)"
  by (intro conjI len_y all_y1_zero y2_eq y2_nonneg sorted_y2 y3_eq sorted_ln_x3)

text \<open>
  C2. The claim that no abscissa is sampled by two segments fails at the boundary
  \<open>x = 0\<close>: the first grid is generated with its right endpoint, so its last sample
  (index 399) is 0, and 0 is also the first sample of the second grid. (The second and third
  grids are disjoint and \<open>e\<close> occurs once, in the third grid only: see
  \<open>grids_2_3_disjoint\<close>, \<open>e_not_in_x1\<close>, \<open>e_not_in_x2\<close>, \<open>distinct_x3\<close>.)
\<close>

theorem boundary_zero_in_two_grids: "x1 ! 399 = 0 \<and> x2 ! 0 = 0 \<and> 0 \<in> set x1 \<inter> set x2"
proof -
  have "x1 ! 399 \<in> set x1"
    by (rule nth_mem) (simp add: length_x1)
  moreover have "x2 ! 0 \<in> set x2"
    by (rule nth_mem) (simp add: length_x2)
  ultimately show ?thesis
    by (simp add: x1_last x2_first)
qed

text \<open>
  C3. The logarithm rule reports a floating-point condition for every argument
  \<open>x \<le> 0\<close>, and it is applied only to the third grid, all of whose samples are at least
  \<open>e > 0\<close>: every entry of \<open>y3\<close> is a proper value, none is a condition.
\<close>

theorem log_error_unreachable:
  "(\<forall>x. x \<le> 0 \<longrightarrow> isl (np_log x)) \<and> 0 < e \<and>
   list_all (\<lambda>x. e \<le> x \<and> 0 < x \<and> np_log x = Inr (ln x)) x3 \<and>
   list_all (\<lambda>y. \<not> isl y) y3"
proof -
  have a: "\<forall>x. x \<le> 0 \<longrightarrow> isl (np_log x)"
    by (simp add: np_log_def)
  have "e \<le> x \<and> 0 < x \<and> np_log x = Inr (ln x)" if "x \<in> set x3" for x
    using set_x3_bounds [OF that] x3_pos [OF that] by (simp add: np_log_def)
  then have b: "list_all (\<lambda>x. e \<le> x \<and> 0 < x \<and> np_log x = Inr (ln x)) x3"
    by (simp add: list_all_iff)
  have c: "list_all (\<lambda>y. \<not> isl y) y3"
    by (simp add: y3_eq list_all_iff)
  show ?thesis
    by (intro conjI a b c e_pos)
qed

theorem log_error_unreachable_witness:
  "(- 1::real) \<le> 0 \<and> isl (np_log (- 1)) \<and> (0::real) \<le> 0 \<and> isl (np_log 0)"
  using log_error_unreachable by simp

text \<open>
  C4. Continuity at \<open>x = e\<close> in exact arithmetic. The second series is the rule
  \<open>x \<mapsto> (1 / e) \<sqdot> x\<close> on the second grid; that rule tends to 1 as \<open>x\<close> approaches
  \<open>e\<close> from the left and has the value 1 at \<open>e\<close>. On the samples themselves: every
  payoff of the second series is short of 1 by exactly \<open>(e - x) / e\<close>, and continuing it
  with its slope \<open>1 / e\<close> up to \<open>x = e\<close> gives the first payoff of the third series.
  The third grid starts at \<open>e\<close> and its first payoff is \<open>ln e = 1\<close>; the two boundary
  values differ by at most \<open>10\<^sup>-\<^sup>9\<close> (by nothing).
\<close>

theorem continuity_at_e:
  "y2 = map (\<lambda>x. (1 / e) * x) x2 \<and>
   ((\<lambda>x. (1 / e) * x) \<longlongrightarrow> 1) (at_left e) \<and> (1 / e) * e = 1 \<and>
   list_all2 (\<lambda>x y. \<bar>y - 1\<bar> = (e - x) / e) x2 y2 \<and>
   list_all2 (\<lambda>x y. Inr (y + (1 / e) * (e - x)) = hd y3) x2 y2 \<and>
   hd x3 = e \<and> hd y3 = Inr 1 \<and> np_log e = Inr (ln e) \<and> ln e = 1 \<and>
   \<bar>(1 / e) * e - ln e\<bar> \<le> 1 / 10 ^ 9"
proof -
  have ne: "e \<noteq> 0"
    using e_pos by simp
  have "((\<lambda>x. (1 / e) * x) \<longlongrightarrow> (1 / e) * e) (at_left e)"
    by (intro tendsto_intros)
  then have lim: "((\<lambda>x. (1 / e) * x) \<longlongrightarrow> 1) (at_left e)"
    using ne by simp
  have one: "(1 / e) * e = 1"
    using ne by simp
  have hx: "hd x3 = e"
    using x3_ne by (simp add: hd_conv_nth x3_first)
  have le: "np_log e = Inr (ln e)"
    using e_pos by (simp add: np_log_def)
  have hy: "hd y3 = Inr 1"
    using x3_ne hx le by (simp add: y3_def hd_map ln_e)
  have "y2 ! i + (1 / e) * (e - x2 ! i) = 1" if "i < 200" for i
  proof -
    have "(e - real i * e / 200) / e = 1 - real i / 200"
      using ne by (simp add: diff_divide_distrib)
    then show ?thesis
      using that by (simp add: nth_x2 nth_y2)
  qed
  then have ext: "list_all2 (\<lambda>x y. Inr (y + (1 / e) * (e - x)) = hd y3) x2 y2"
    by (simp add: list_all2_conv_all_nth length_x2 length_y2 hy)
  have tol: "\<bar>(1 / e) * e - ln e\<bar> \<le> 1 / 10 ^ 9"
    using ne by (simp add: ln_e)
  show ?thesis
    by (intro conjI y2_def lim one y2_short_of_one ext hx hy le ln_e tol)
qed

text \<open>
  C5, as amended. For bounds \<open>a \<le> b\<close> and a positive sample count \<open>n\<close>, the generated
  domain has exactly \<open>n\<close> samples, starts at \<open>a\<close>, is non-decreasing, and has the constant
  gap \<open>(b - a) / (n - 1)\<close> with the endpoint and \<open>(b - a) / n\<close> without. With the endpoint
  and at least two samples the last sample is \<open>b\<close>; without the endpoint, and \<open>a < b\<close>,
  every sample is below \<open>b\<close>.
\<close>

theorem linspace_contract:
  assumes "a \<le> b" and "0 < n"
  shows "length (linspace a b n ep) = n \<and>
         hd (linspace a b n ep) = a \<and>
         sorted (linspace a b n ep) \<and>
         (\<forall>i. Suc i < n \<longrightarrow>
              linspace a b n ep ! Suc i - linspace a b n ep ! i =
                (b - a) / (if ep then real n - 1 else real n)) \<and>
         (ep \<and> 1 < n \<longrightarrow> last (linspace a b n ep) = b) \<and>
         (\<not> ep \<and> a < b \<longrightarrow> list_all (\<lambda>x. x < b) (linspace a b n ep))"
proof -
  let ?xs = "linspace a b n ep"
  let ?d = "if ep then real n - 1 else real n"
  have ne: "?xs \<noteq> []"
    using assms(2) length_linspace [of a b n ep] by auto
  have d0: "0 \<le> ?d"
    using assms(2) by auto
  have hd: "hd ?xs = a"
    using ne assms(2) by (simp add: hd_conv_nth nth_linspace)
  have "?xs ! i \<le> ?xs ! j" if "i \<le> j" "j < n" for i j
  proof -
    have "real i * (b - a) \<le> real j * (b - a)"
      using that assms(1) by (intro mult_right_mono) auto
    then have "real i * (b - a) / ?d \<le> real j * (b - a) / ?d"
      using d0 by (rule divide_right_mono)
    then show ?thesis
      using that by (simp add: nth_linspace)
  qed
  then have srt: "sorted ?xs"
    by (simp add: sorted_iff_nth_mono length_linspace)
  have gap: "\<forall>i. Suc i < n \<longrightarrow> ?xs ! Suc i - ?xs ! i = (b - a) / ?d"
    by (simp add: nth_linspace add_divide_distrib distrib_right)
  have lst: "ep \<and> 1 < n \<longrightarrow> last ?xs = b"
  proof
    assume h: "ep \<and> 1 < n"
    then have "real (n - 1) = real n - 1" and "real n - 1 \<noteq> 0"
      by (auto simp: of_nat_diff)
    then show "last ?xs = b"
      using ne h by (simp add: last_conv_nth length_linspace nth_linspace)
  qed
  have excl: "\<not> ep \<and> a < b \<longrightarrow> list_all (\<lambda>x. x < b) ?xs"
  proof
    assume h: "\<not> ep \<and> a < b"
    have "?xs ! i < b" if "i < n" for i
    proof -
      have "real i * (b - a) < real n * (b - a)"
        using that h by simp
      then have "real i * (b - a) / real n < b - a"
        using assms(2) by (simp add: divide_less_eq mult.commute)
      then show ?thesis
        using that h by (simp add: nth_linspace)
    qed
    then show "list_all (\<lambda>x. x < b) ?xs"
      by (simp add: list_all_length length_linspace)
  qed
  show ?thesis
    using length_linspace [of a b n ep] hd srt gap lst excl by blast
qed

theorem linspace_contract_witness:
  "(0::real) \<le> 1 \<and> (0::nat) < 5 \<and>
   length (linspace 0 1 5 True) = 5 \<and> hd (linspace 0 1 5 True) = 0 \<and>
   sorted (linspace 0 1 5 True) \<and>
   linspace 0 1 5 True ! Suc 0 - linspace 0 1 5 True ! 0 = 1 / 4 \<and>
   last (linspace 0 1 5 True) = 1 \<and>
   list_all (\<lambda>x. x < 1) (linspace 0 1 5 False)"
  using linspace_contract [of 0 1 5 True] linspace_contract [of 0 1 5 False] by simp

text \<open>
  C5 as stated fails for a single sample with the endpoint flag: the only sample is the
  left bound, so the right bound is not included.
\<close>

theorem linspace_single_sample_counterexample:
  "linspace 0 1 1 True = [0] \<and> last (linspace 0 1 1 True) \<noteq> 1"
  by (simp add: linspace_def Let_def)

text \<open>
  C6. The second grid is the domain over \<open>[0, e)\<close> with 200 samples and without the right
  endpoint; the linear rule on it gives a series whose first value is 0 and whose last
  value is \<open>(e \<sqdot> 199 / 200) / e = 199 / 200\<close>.
\<close>

theorem linear_segment_end_to_end:
  "x2 = linspace 0 e 200 False \<and> length y2 = 200 \<and> hd y2 = 0 \<and>
   last x2 = e * 199 / 200 \<and> last y2 = (e * 199 / 200) / e \<and> last y2 = 199 / 200"
proof -
  have "hd y2 = 0"
    using y2_ne by (simp add: hd_conv_nth nth_y2)
  moreover have "last x2 = e * 199 / 200"
    using x2_ne by (simp add: last_conv_nth length_x2 nth_x2)
  moreover have l: "last y2 = 199 / 200"
    using y2_ne by (simp add: last_conv_nth length_y2 nth_y2)
  moreover have "(e * 199 / 200) / e = 199 / 200"
    using e_pos by simp
  ultimately show ?thesis
    by (simp add: x2_def length_y2)
qed

text \<open>
  C8. The axis limits are \<open>(-20, 20)\<close> and \<open>(-5, 5)\<close>. The x ticks are the 21 integers
  from \<open>-20\<close> to 20 in steps of 2. The y ticks are the 20 values from \<open>-5\<close> in steps of
  \<open>1/2\<close>; the last one is \<open>9/2\<close>, and 5 is not a tick.
\<close>

theorem tick_configuration:
  "xlim = (- 20, 20) \<and> ylim = (- 5, 5) \<and>
   xticks = Inr [- 20, - 18, - 16, - 14, - 12, - 10, - 8, - 6, - 4, - 2, 0,
                 2, 4, 6, 8, 10, 12, 14, 16, 18, 20] \<and>
   yticks = Inr [- 5, - 9 / 2, - 4, - 7 / 2, - 3, - 5 / 2, - 2, - 3 / 2, - 1, - 1 / 2, 0,
                 1 / 2, 1, 3 / 2, 2, 5 / 2, 3, 7 / 2, 4, 9 / 2]"
proof -
  have n21: "[0..<21] = [0, 1, 2, 3, 4, 5, 6, 7, 8, 9, 10, 11, 12, 13, 14, 15, 16, 17, 18, 19, 20]"
    by (simp add: upt_rec)
  have n20: "[0..<20] = [0, 1, 2, 3, 4, 5, 6, 7, 8, 9, 10, 11, 12, 13, 14, 15, 16, 17, 18, 19]"
    by (simp add: upt_rec)
  have cx: "\<lceil>real_of_int (21 - - 20) / real_of_int 2\<rceil> = 21"
    by (simp add: ceiling_eq_iff)
  have cy: "\<lceil>((5::real) - - 5) / 0.5\<rceil> = 20"
    by simp
  have xt: "xticks = Inr [- 20, - 18, - 16, - 14, - 12, - 10, - 8, - 6, - 4, - 2, 0,
                 2, 4, 6, 8, 10, 12, 14, 16, 18, 20]"
    unfolding xticks_def arange_int_def cx by (simp add: n21)
  have yt: "yticks = Inr [- 5, - 9 / 2, - 4, - 7 / 2, - 3, - 5 / 2, - 2, - 3 / 2, - 1, - 1 / 2, 0,
                 1 / 2, 1, 3 / 2, 2, 5 / 2, 3, 7 / 2, 4, 9 / 2]"
    unfolding yticks_def arange_def cy by (simp add: n20)
  show ?thesis
    by (intro conjI xt yt xlim_def ylim_def)
qed

text \<open>
  C9. The boundary \<open>x = 0\<close> is the last sample of the first grid and the first sample of
  the second grid, and both series give the payoff 0 there.
\<close>

theorem boundary_zero_value_consistent: "last x1 = 0 \<and> hd x2 = 0 \<and> last y1 = 0 \<and> hd y2 = 0"
proof -
  have "last x1 = 0"
    using x1_ne by (simp add: last_conv_nth length_x1 x1_last)
  moreover have "hd x2 = 0"
    using x2_ne by (simp add: hd_conv_nth x2_first)
  moreover have "last y1 = 0"
    using x1_ne by (simp add: y1_def zeros_like_def last_map)
  moreover have "hd y2 = 0"
    using y2_ne by (simp add: hd_conv_nth nth_y2)
  ultimately show ?thesis
    by simp
qed

text \<open>
  C10. The ordinates in drawing order (segment 1, then 2, then 3) are all proper values;
  they form a non-decreasing sequence, each lies between 0 and \<open>ln 20 < 3\<close>, hence
  strictly inside the vertical axis limits.
\<close>

theorem plotted_curve_monotone_bounded:
  "plotted_y = map Inr (y1 @ y2 @ map ln x3) \<and>
   sorted (y1 @ y2 @ map ln x3) \<and>
   list_all (\<lambda>y. 0 \<le> y \<and> y \<le> ln 20) (y1 @ y2 @ map ln x3) \<and>
   ln (20::real) < 3 \<and>
   list_all (\<lambda>y. fst ylim < y \<and> y < snd ylim) (y1 @ y2 @ map ln x3)"
proof -
  have p: "plotted_y = map Inr (y1 @ y2 @ map ln x3)"
    by (simp add: plotted_y_def y3_eq)
  have s23: "sorted (y2 @ map ln x3)"
    using set_y2 set_ln_x3 sorted_y2 sorted_ln_x3
    by (fastforce simp: sorted_append dest: strict_sorted_imp_sorted)
  have s: "sorted (y1 @ y2 @ map ln x3)"
    unfolding sorted_append [of y1]
  proof (intro conjI ballI)
    show "sorted y1" by (rule sorted_y1)
    show "sorted (y2 @ map ln x3)" by (rule s23)
  next
    fix u v assume "u \<in> set y1" "v \<in> set (y2 @ map ln x3)"
    then show "u \<le> v"
      using set_y1 [of u] set_y2 [of v] set_ln_x3 [of v] by auto
  qed
  have l20: "0 \<le> ln (20::real)"
    by simp
  have r: "0 \<le> y \<and> y \<le> ln 20" if "y \<in> set (y1 @ y2 @ map ln x3)" for y
  proof -
    have "1 \<le> ln (20::real)"
      using set_ln_x3 [of "ln (x3 ! 0)"] x3_ne by fastforce
    then show ?thesis
      using that set_y1 [of y] set_y2 [of y] set_ln_x3 [of y] by auto
  qed
  then have b: "list_all (\<lambda>y. 0 \<le> y \<and> y \<le> ln 20) (y1 @ y2 @ map ln x3)"
    unfolding list_all_iff by blast
  have "fst ylim < y \<and> y < snd ylim" if "y \<in> set (y1 @ y2 @ map ln x3)" for y
    using r [OF that] ln20_lt_3 by (simp add: ylim_def)
  then have w: "list_all (\<lambda>y. fst ylim < y \<and> y < snd ylim) (y1 @ y2 @ map ln x3)"
    unfolding list_all_iff by blast
  show ?thesis
    by (intro conjI p s b w ln20_lt_3)
qed

end
